theory Spec2Isabelle
  imports Complex_Main "HOL-Library.AList"
begin

section \<open>Shallow embedding of \<open>src/emgdecompy/viz.py\<close>\<close>

text \<open>
  The module has two functions: \<open>muap_dict\<close> (the shape extractor) and
  \<open>muap_plot\<close> (the paginated renderer). Both are embedded as functions that return
  \<open>error + result\<close>: every exception the Python raises is an \<open>Inl\<close> value.

  Amplitudes are numpy floats; they are idealised as \<open>real\<close>, so rounding is not
  modelled. Indices are Python/numpy integers, idealised as \<open>int\<close> (no overflow).
\<close>

subsection \<open>Exceptions\<close>

text \<open>
  \<open>IndexError_tuple\<close> is the \<open>IndexError\<close> of \<open>pt[i].shape[0]\<close> on a
  zero-dimensional array (tuple index out of range); \<open>IndexError_axis\<close> is the
  \<open>IndexError\<close> of \<open>raw[:, ptl]\<close> (index out of bounds for axis 1).
\<close>

datatype error =
  IndexError_tuple | IndexError_axis | TypeError | ValueError
  | KeyError | NameError | ZeroDivisionError

text \<open>A statement that raises ends the function: the rest runs on a value only.\<close>

definition bind_err :: "error + 'a \<Rightarrow> ('a \<Rightarrow> error + 'b) \<Rightarrow> error + 'b" where
  "bind_err m f = (case m of Inl e \<Rightarrow> Inl e | Inr x \<Rightarrow> f x)"

subsection \<open>Formatting of integers in f-strings\<close>

definition digit_char :: "nat \<Rightarrow> char" where
  "digit_char d = char_of (48 + d)"

function str_nat :: "nat \<Rightarrow> string" where
  "str_nat n =
     (if n < 10 then [digit_char n] else str_nat (n div 10) @ [digit_char (n mod 10)])"
  by pat_completeness auto
termination
  by (relation "measure id") auto

declare str_nat.simps [simp del]

definition str_int :: "int \<Rightarrow> string" where
  "str_int i = (if i < 0 then CHR ''-'' # str_nat (nat (- i)) else str_nat (nat i))"

text \<open>The dictionary key \<open>f"mu_{i}"\<close>.\<close>

definition mu_key :: "int \<Rightarrow> string" where
  "mu_key i = ''mu_'' @ str_int i"

subsection \<open>Arrays\<close>

text \<open>
  \<open>pt\<close> is a numpy object array with one entry per motor unit; each entry is an
  integer array of firing indices. An array is its shape and its elements in row-major
  order. \<open>wf_ndarray\<close> is the invariant every numpy array satisfies.
\<close>

datatype ndarray = NDArray (shape: "nat list") (data: "int list")

definition wf_ndarray :: "ndarray \<Rightarrow> bool" where
  "wf_ndarray a = (length (data a) = prod_list (shape a))"

text \<open>\<open>a.squeeze()\<close> removes every axis of length one.\<close>

definition squeeze :: "ndarray \<Rightarrow> ndarray" where
  "squeeze a = NDArray (filter (\<lambda>d. d \<noteq> 1) (shape a)) (data a)"

text \<open>\<open>a.shape[0]\<close>: the shape of a zero-dimensional array is the empty tuple.\<close>

definition shape0 :: "ndarray \<Rightarrow> error + nat" where
  "shape0 a = (case shape a of [] \<Rightarrow> Inl IndexError_tuple | d # _ \<Rightarrow> Inr d)"

text \<open>
  Iterating over an array: a zero-dimensional array cannot be iterated, a
  one-dimensional array yields its integers, an array of more dimensions yields one
  sub-array per index of its first axis.
\<close>

datatype elem = Scalar int | SubArray

definition iterate :: "ndarray \<Rightarrow> error + elem list" where
  "iterate a =
     (case shape a of
        [] \<Rightarrow> Inl TypeError
      | [d] \<Rightarrow> Inr (map Scalar (data a))
      | d # _ # _ \<Rightarrow> Inr (replicate d SubArray))"

text \<open>\<open>np.zeros((n, w), dtype="int")\<close> refuses a negative dimension.\<close>

definition np_zeros :: "nat \<Rightarrow> int \<Rightarrow> error + int list list" where
  "np_zeros n w = (if w < 0 then Inl ValueError else Inr (replicate n (replicate (nat w) 0)))"

definition np_arange :: "int \<Rightarrow> int \<Rightarrow> int list" where
  "np_arange a b = [a..b - 1]"

definition np_full :: "int \<Rightarrow> int \<Rightarrow> int list" where
  "np_full w v = replicate (nat w) v"

definition np_tile :: "'a list \<Rightarrow> nat \<Rightarrow> 'a list" where
  "np_tile xs n = concat (replicate n xs)"

definition flatten :: "'a list list \<Rightarrow> 'a list" where
  "flatten rows = concat rows"

text \<open>
  The flattened raw signal: \<open>n_samples\<close> is the length of the time axis (the array
  has it also when it has no channel), \<open>channels\<close> the rows.
\<close>

record signal2d =
  n_samples :: nat
  channels :: "real list list"

definition wf_signal :: "signal2d \<Rightarrow> bool" where
  "wf_signal raw = list_all (\<lambda>ch. length ch = n_samples raw) (channels raw)"

text \<open>
  \<open>raw[:, ptl]\<close>: numpy accepts an index \<open>p\<close> with \<open>-T \<le> p < T\<close> and reads a
  negative one from the end of the axis; any other index raises. The result is kept
  column by column (one column of channel values per index).
\<close>

definition in_bounds :: "nat \<Rightarrow> int \<Rightarrow> bool" where
  "in_bounds T p = (- int T \<le> p \<and> p < int T)"

definition axis_index :: "nat \<Rightarrow> int \<Rightarrow> nat" where
  "axis_index T p = nat (if p < 0 then p + int T else p)"

definition column :: "signal2d \<Rightarrow> int \<Rightarrow> real list" where
  "column raw p = map (\<lambda>ch. ch ! axis_index (n_samples raw) p) (channels raw)"

definition take_columns :: "signal2d \<Rightarrow> int list \<Rightarrow> error + real list list" where
  "take_columns raw ptl =
     (if list_all (in_bounds (n_samples raw)) ptl then Inr (map (column raw) ptl)
      else Inl IndexError_axis)"

text \<open>\<open>.mean(axis=0)\<close>: the mean over the channels, for each column.\<close>

definition mean :: "real list \<Rightarrow> real" where
  "mean xs = sum_list xs / real (length xs)"

definition mean_axis0 :: "real list list \<Rightarrow> real list" where
  "mean_axis0 cols = map mean cols"

text \<open>
  \<open>.reshape(n, w).flatten()\<close>: the reshape raises unless the sizes agree; flattening
  the reshaped array gives the elements back in the same (row-major) order.
\<close>

definition reshape_flatten :: "nat \<Rightarrow> int \<Rightarrow> 'a list \<Rightarrow> error + 'a list" where
  "reshape_flatten n w xs = (if int (length xs) = int n * w then Inr xs else Inl ValueError)"

subsection \<open>\<open>muap_dict\<close>\<close>

record shape_record =
  sample :: "int list"
  signal :: "real list"
  peak :: "int list"

type_synonym shape_dict = "(string \<times> shape_record) list"

text \<open>
  Lines 44--47, \<open>for j, k in enumerate(pt[i])\<close>: row \<open>j\<close> of \<open>ptl\<close> becomes
  \<open>np.arange(k - l, k + l)\<close> and row \<open>j\<close> of \<open>peak_index\<close> becomes
  \<open>np.full(l * 2, j)\<close>. \<open>np.arange\<close> raises on a sub-array with a number of
  elements other than one, which is every sub-array of a squeezed array.
\<close>

fun fill_rows ::
  "int \<Rightarrow> (nat \<times> elem) list \<Rightarrow> int list list \<times> int list list
     \<Rightarrow> error + (int list list \<times> int list list)" where
  "fill_rows l [] (ptl, peak_index) = Inr (ptl, peak_index)"
| "fill_rows l ((j, SubArray) # rest) (ptl, peak_index) = Inl TypeError"
| "fill_rows l ((j, Scalar k) # rest) (ptl, peak_index) =
     fill_rows l rest
       (ptl[j := np_arange (k - l) (k + l)], peak_index[j := np_full (l * 2) (int j)])"

text \<open>Lines 36--60 for one motor unit, whose (squeezed) array is \<open>a\<close>.\<close>

definition muap_unit :: "signal2d \<Rightarrow> ndarray \<Rightarrow> int \<Rightarrow> error + shape_record" where
  "muap_unit raw a l =
     bind_err (shape0 a) (\<lambda>n.
     bind_err (np_zeros n (l * 2)) (\<lambda>ptl0.
     bind_err (np_zeros n (l * 2)) (\<lambda>peak0.
     bind_err (iterate a) (\<lambda>elems.
     bind_err (fill_rows l (enumerate 0 elems) (ptl0, peak0)) (\<lambda>(ptl, peak_index).
     bind_err (take_columns raw (flatten ptl)) (\<lambda>cols.
     bind_err (reshape_flatten n (l * 2) (mean_axis0 cols)) (\<lambda>sig.
       Inr \<lparr>sample = np_tile (np_arange 0 (l * 2)) n, signal = sig,
            peak = flatten peak_index\<rparr>)))))))"

text \<open>
  The loop over the motor units, \<open>for i in range(pt.shape[0])\<close>. The state is the
  caller's \<open>pt\<close>, which line 33 overwrites with the squeezed array, and the dictionary
  built so far. An exception leaves \<open>pt\<close> as it was mutated up to then.
\<close>

fun muap_units ::
  "signal2d \<Rightarrow> int \<Rightarrow> nat list \<Rightarrow> ndarray list \<times> shape_dict
     \<Rightarrow> (error + shape_dict) \<times> ndarray list" where
  "muap_units raw l [] (pt, shape_dict) = (Inr shape_dict, pt)"
| "muap_units raw l (i # is) (pt, shape_dict) =
     (let pt' = pt[i := squeeze (pt ! i)] in
      case muap_unit raw (pt' ! i) l of
        Inl e \<Rightarrow> (Inl e, pt')
      | Inr r \<Rightarrow> muap_units raw l is (pt', AList.update (mu_key (int i)) r shape_dict))"

text \<open>
  \<open>flatten_signal\<close> is imported from \<open>emgdecompy.preprocessing\<close>; it is a parameter
  of the model. The result is the returned dictionary (or the exception) together with
  the final contents of the caller's \<open>pt\<close>.
\<close>

definition muap_dict ::
  "('r \<Rightarrow> signal2d) \<Rightarrow> 'r \<Rightarrow> ndarray list \<Rightarrow> int \<Rightarrow> (error + shape_dict) \<times> ndarray list" where
  "muap_dict flatten_signal raw pt l =
     muap_units (flatten_signal raw) l [0..<length pt] (pt, [])"

subsection \<open>\<open>muap_plot\<close>\<close>

text \<open>
  \<open>pd.DataFrame(d)\<close> of a dictionary of three arrays: one row per position; arrays
  of different lengths are refused.
\<close>

type_synonym data_frame = "(int \<times> real \<times> int) list"

definition DataFrame :: "shape_record \<Rightarrow> error + data_frame" where
  "DataFrame r =
     (if length (sample r) = length (signal r) \<and> length (signal r) = length (peak r)
      then Inr (zip (sample r) (zip (signal r) (peak r)))
      else Inl ValueError)"

text \<open>The row slice \<open>df[a:b]\<close> with Python's treatment of negative and large bounds.\<close>

definition slice_bound :: "nat \<Rightarrow> int \<Rightarrow> nat" where
  "slice_bound n a = nat (if a < 0 then max (a + int n) 0 else min a (int n))"

definition py_slice :: "int \<Rightarrow> int \<Rightarrow> 'a list \<Rightarrow> 'a list" where
  "py_slice a b xs =
     (let lo = slice_bound (length xs) a; hi = slice_bound (length xs) b
      in take (hi - lo) (drop lo xs))"

text \<open>
  What the chart specification is built from: the sliced rows, the facet title and the
  number of facet columns (\<open>count / 2\<close>). The styling is constant.
\<close>

record chart =
  chart_data :: data_frame
  facet_title :: string
  facet_columns :: real

datatype plot_result = Message string | Plot chart

text \<open>
  \<open>muap_plot\<close> reads the name \<open>l\<close>, which is not one of its parameters, so Python
  looks it up in the module's globals. \<open>muap_plot_env\<close> takes that binding as an
  argument: \<open>None\<close> when the module has no global \<open>l\<close>.
\<close>

definition muap_plot_env ::
  "int option \<Rightarrow> shape_dict \<Rightarrow> int \<Rightarrow> int \<Rightarrow> int \<Rightarrow> error + plot_result" where
  "muap_plot_env global_l shape_dict mu_index page count =
     bind_err (case map_of shape_dict (mu_key mu_index) of
                 None \<Rightarrow> Inl KeyError | Some r \<Rightarrow> DataFrame r) (\<lambda>mu_df.
     bind_err (case global_l of None \<Rightarrow> Inl NameError | Some l \<Rightarrow> Inr l) (\<lambda>l.
       (let row_index =
          ((page - 1) * (l * 2) * count, (page - 1) * (l * 2) * count + (l * 2) * count)
        in
        if count > 12 then Inr (Message ''Max plots per page is 12'')
        else if l * 2 = 0 \<or> count = 0 then Inl ZeroDivisionError
        else
          (let last_page =
             int (length mu_df) div (l * 2) div count + (if 147 mod count > 0 then 1 else 0)
           in
           if page > last_page
           then Inr (Message (''Last page is page '' @ str_int last_page @ ''.''))
           else Inr (Plot \<lparr>chart_data = py_slice (fst row_index) (snd row_index) mu_df,
                           facet_title = ''Page '' @ str_int page @ '' of '' @ str_int last_page,
                           facet_columns = real_of_int count / 2\<rparr>)))))"

text \<open>The module as it is written defines no global \<open>l\<close>.\<close>

definition viz_global_l :: "int option" where
  "viz_global_l = None"

definition muap_plot :: "shape_dict \<Rightarrow> int \<Rightarrow> int \<Rightarrow> int \<Rightarrow> error + plot_result" where
  "muap_plot = muap_plot_env viz_global_l"

subsection \<open>Auxiliary definitions\<close>

text \<open>
  The indices read for a unit with firing indices \<open>ks\<close>, the record the loop body
  builds from them when it raises nothing, and the outcome of the loop body for unit
  \<open>i\<close> of \<open>pt\<close>. They are used to state the lemmas below.
\<close>

definition windows :: "int \<Rightarrow> int list \<Rightarrow> int list" where
  "windows l ks = concat (map (\<lambda>k. np_arange (k - l) (k + l)) ks)"

definition unit_record :: "signal2d \<Rightarrow> int list \<Rightarrow> int \<Rightarrow> shape_record" where
  "unit_record raw ks l =
     \<lparr>sample = np_tile (np_arange 0 (l * 2)) (length ks),
      signal = map (\<lambda>p. mean (column raw p)) (windows l ks),
      peak = concat (map (\<lambda>j. np_full (l * 2) (int j)) [0..<length ks])\<rparr>"

definition unit_result :: "signal2d \<Rightarrow> int \<Rightarrow> ndarray list \<Rightarrow> nat \<Rightarrow> error + shape_record" where
  "unit_result raw l pt i = muap_unit raw (squeeze (pt ! i)) l"

text \<open>
  A signal of two channels and ten samples, the firing indices of two motor units (the
  first as a row vector, as a MATLAB cell holds it), and a shape table of two events.
\<close>

definition example_raw :: signal2d where
  "example_raw =
     \<lparr>n_samples = 10,
      channels = [[0, 1, 2, 3, 4, 5, 6, 7, 8, 9], [0, 2, 4, 6, 8, 10, 12, 14, 16, 18]]\<rparr>"

definition example_pt :: "ndarray list" where
  "example_pt = [NDArray [1, 2] [3, 7], NDArray [3] [2, 4, 6]]"

definition example_table :: shape_dict where
  "example_table =
     [(''mu_0'', \<lparr>sample = [0, 1, 0, 1], signal = [1, 2, 3, 4], peak = [0, 0, 1, 1]\<rparr>)]"

section \<open>Properties\<close>

subsection \<open>Keys\<close>

lemma digit_char_inj: "a < 10 \<Longrightarrow> b < 10 \<Longrightarrow> digit_char a = digit_char b \<Longrightarrow> a = b"
  by (simp add: digit_char_def)

lemma str_nat_small: "n < 10 \<Longrightarrow> str_nat n = [digit_char n]"
  by (simp add: str_nat.simps)

lemma str_nat_large: "10 \<le> n \<Longrightarrow> str_nat n = str_nat (n div 10) @ [digit_char (n mod 10)]"
  by (subst str_nat.simps) simp

lemma str_nat_not_Nil: "str_nat n \<noteq> []"
  by (subst str_nat.simps) simp

lemma str_nat_inj: "str_nat n = str_nat m \<Longrightarrow> n = m"
proof (induction n arbitrary: m rule: str_nat.induct)
  case (1 n)
  show ?case
  proof (cases "n < 10")
    case small: True
    show ?thesis
    proof (cases "m < 10")
      case True
      with small "1.prems" show ?thesis
        by (simp add: str_nat_small digit_char_inj)
    next
      case False
      with small "1.prems" show ?thesis
        using str_nat_not_Nil [of "m div 10"] by (simp add: str_nat_small str_nat_large)
    qed
  next
    case large: False
    show ?thesis
    proof (cases "m < 10")
      case True
      with large "1.prems" show ?thesis
        using str_nat_not_Nil [of "n div 10"] by (simp add: str_nat_small str_nat_large)
    next
      case False
      with large "1.prems" have eq: "str_nat (n div 10) = str_nat (m div 10)"
        and dg: "digit_char (n mod 10) = digit_char (m mod 10)"
        by (simp_all add: str_nat_large)
      from "1.IH" [OF large eq] have "n div 10 = m div 10" .
      moreover from dg have "n mod 10 = m mod 10"
        by (intro digit_char_inj) simp_all
      ultimately show ?thesis
        by (metis div_mult_mod_eq)
    qed
  qed
qed

lemma mu_key_inj: "mu_key (int i) = mu_key (int j) \<Longrightarrow> i = j"
  by (simp add: mu_key_def str_int_def str_nat_inj)

subsection \<open>Squeezing\<close>

lemma squeeze_idem: "squeeze (squeeze a) = squeeze a"
  by (simp add: squeeze_def)

lemma data_squeeze: "data (squeeze a) = data a"
  by (simp add: squeeze_def)

lemma prod_list_filter_ne1: "prod_list (filter (\<lambda>d. d \<noteq> Suc 0) ds) = prod_list ds"
  by (induction ds) simp_all

lemma wf_squeeze: "wf_ndarray (squeeze a) = wf_ndarray a"
  by (simp add: wf_ndarray_def squeeze_def prod_list_filter_ne1)

subsection \<open>One motor unit\<close>

lemma fill_rows_scalars:
  "length P = m \<Longrightarrow> length Q = m \<Longrightarrow> a + length ks \<le> m \<Longrightarrow>
   fill_rows l (enumerate a (map Scalar ks)) (P, Q) =
     Inr (take a P @ map (\<lambda>k. np_arange (k - l) (k + l)) ks @ drop (a + length ks) P,
          take a Q @ map (\<lambda>j. np_full (l * 2) (int j)) [a..<a + length ks]
            @ drop (a + length ks) Q)"
proof (induction ks arbitrary: a P Q)
  case Nil
  then show ?case by simp
next
  case (Cons k ks)
  let ?P = "P[a := np_arange (k - l) (k + l)]"
  let ?Q = "Q[a := np_full (l * 2) (int a)]"
  from Cons.prems have a: "a < length P" "a < length Q" by simp_all
  have "fill_rows l (enumerate (Suc a) (map Scalar ks)) (?P, ?Q) =
     Inr (take (Suc a) ?P @ map (\<lambda>k. np_arange (k - l) (k + l)) ks @ drop (Suc a + length ks) ?P,
          take (Suc a) ?Q @ map (\<lambda>j. np_full (l * 2) (int j)) [Suc a..<Suc a + length ks]
            @ drop (Suc a + length ks) ?Q)"
    using Cons.prems by (intro Cons.IH [of ?P ?Q "Suc a"]) simp_all
  moreover have "take (Suc a) ?P = take a P @ [np_arange (k - l) (k + l)]"
    using a by (simp add: take_Suc_conv_app_nth)
  moreover have "take (Suc a) ?Q = take a Q @ [np_full (l * 2) (int a)]"
    using a by (simp add: take_Suc_conv_app_nth)
  moreover have "[a..<a + length (k # ks)] = a # [Suc a..<Suc a + length ks]"
    by (simp add: upt_rec)
  ultimately show ?case
    by simp
qed

lemma fill_rows_zeros:
  "fill_rows l (enumerate 0 (map Scalar ks))
     (replicate (length ks) z, replicate (length ks) z') =
   Inr (map (\<lambda>k. np_arange (k - l) (k + l)) ks,
        map (\<lambda>j. np_full (l * 2) (int j)) [0..<length ks])"
  using fill_rows_scalars [of "replicate (length ks) z" "length ks" "replicate (length ks) z'" 0 ks l]
  by simp

lemma length_np_arange: "length (np_arange a b) = nat (b - a)"
  by (simp add: np_arange_def)

lemma length_windows: "0 \<le> l \<Longrightarrow> int (length (windows l ks)) = int (length ks) * (l * 2)"
  by (induction ks) (simp_all add: windows_def length_np_arange algebra_simps)

lemma muap_unit_0d: "shape a = [] \<Longrightarrow> muap_unit raw a l = Inl IndexError_tuple"
  by (simp add: muap_unit_def shape0_def bind_err_def)

lemma muap_unit_1d:
  assumes "shape a = [n]" and "length (data a) = n"
  shows "muap_unit raw a l =
     (if l < 0 then Inl ValueError
      else if list_all (in_bounds (n_samples raw)) (windows l (data a))
        then Inr (unit_record raw (data a) l)
      else Inl IndexError_axis)"
proof (cases "l < 0")
  case True
  with assms show ?thesis
    by (simp add: muap_unit_def shape0_def bind_err_def np_zeros_def)
next
  case False
  then have l: "0 \<le> l" by simp
  have fill: "fill_rows l (enumerate 0 (map Scalar (data a)))
      (replicate n (replicate (nat (l * 2)) 0), replicate n (replicate (nat (l * 2)) 0)) =
    Inr (map (\<lambda>k. np_arange (k - l) (k + l)) (data a),
         map (\<lambda>j. np_full (l * 2) (int j)) [0..<n])"
    using fill_rows_zeros [of l "data a"] assms(2) by simp
  from l assms fill show ?thesis
    using length_windows [OF l, of "data a"]
    by (simp add: muap_unit_def shape0_def bind_err_def np_zeros_def iterate_def
        take_columns_def flatten_def reshape_flatten_def mean_axis0_def unit_record_def
        windows_def [symmetric] o_def)
qed

lemma muap_unit_nd:
  assumes "shape a = d # d' # ds"
  shows "muap_unit raw a l =
     (if l < 0 then Inl ValueError
      else if d = 0 then Inr (unit_record raw [] l)
      else Inl TypeError)"
proof -
  have "d \<noteq> 0 \<Longrightarrow> enumerate 0 (replicate d SubArray) = (0, SubArray) # enumerate 1 (replicate (d - 1) SubArray)"
    by (cases d) simp_all
  with assms show ?thesis
    by (simp add: muap_unit_def shape0_def bind_err_def np_zeros_def iterate_def
        take_columns_def flatten_def reshape_flatten_def mean_axis0_def unit_record_def
        windows_def np_tile_def)
qed

lemma muap_unit_InrD:
  assumes "muap_unit raw a l = Inr r" and "wf_ndarray a"
  shows "0 \<le> l \<and> list_all (in_bounds (n_samples raw)) (windows l (data a))
     \<and> r = unit_record raw (data a) l"
proof (cases "shape a")
  case Nil
  with assms show ?thesis by (simp add: muap_unit_0d)
next
  case (Cons d ds)
  show ?thesis
  proof (cases ds)
    case Nil
    with Cons assms(2) have "length (data a) = d" by (simp add: wf_ndarray_def)
    with Cons Nil assms(1) show ?thesis
      by (simp add: muap_unit_1d split: if_splits)
  next
    case (Cons d' ds')
    with \<open>shape a = d # ds\<close> have sh: "shape a = d # d' # ds'" by simp
    from assms(1) have "d = 0" and l: "0 \<le> l" and r: "r = unit_record raw [] l"
      by (simp_all add: muap_unit_nd [OF sh] split: if_splits)
    with sh assms(2) have "data a = []" by (simp add: wf_ndarray_def)
    with l r show ?thesis by (simp add: windows_def)
  qed
qed

lemma filter_ne1_Nil: "prod_list ds = Suc 0 \<Longrightarrow> filter (\<lambda>d. d \<noteq> Suc 0) ds = []"
  by (induction ds) simp_all

text \<open>
  A unit with exactly one firing index: all axes of its array have length one,
  \<open>squeeze\<close> removes them all, and \<open>pt[i].shape[0]\<close> on line 36 raises.
\<close>

lemma muap_unit_single_event:
  assumes "wf_ndarray a" and "length (data a) = 1"
  shows "muap_unit raw (squeeze a) l = Inl IndexError_tuple"
proof -
  from assms have "prod_list (shape a) = Suc 0"
    by (simp add: wf_ndarray_def)
  then have "filter (\<lambda>d. d \<noteq> Suc 0) (shape a) = []"
    by (rule filter_ne1_Nil)
  then have "shape (squeeze a) = []"
    by (simp add: squeeze_def)
  then show ?thesis by (rule muap_unit_0d)
qed

subsection \<open>The loop over the motor units\<close>

lemma update_fresh: "k \<notin> fst ` set al \<Longrightarrow> AList.update k v al = al @ [(k, v)]"
  by (induction al) auto

lemma fold_update_fresh:
  "distinct (map f js) \<Longrightarrow> \<forall>j\<in>set js. f j \<notin> fst ` set al \<Longrightarrow>
   fold (\<lambda>j. AList.update (f j) (g j)) js al = al @ map (\<lambda>j. (f j, g j)) js"
proof (induction js arbitrary: al)
  case Nil
  then show ?case by simp
next
  case (Cons j js)
  from Cons.prems have fresh: "f j \<notin> fst ` set al" by simp
  have "fold (\<lambda>j. AList.update (f j) (g j)) js (al @ [(f j, g j)]) =
      (al @ [(f j, g j)]) @ map (\<lambda>j. (f j, g j)) js"
    using Cons.prems by (intro Cons.IH) (auto simp: image_iff)
  with fresh show ?case by (simp add: update_fresh)
qed

lemma muap_units_pt:
  "muap_units raw l js (pt, sd) = (res, pt') \<Longrightarrow>
   length pt' = length pt \<and> (\<forall>i. pt' ! i = pt ! i \<or> pt' ! i = squeeze (pt ! i))"
proof (induction js arbitrary: pt sd)
  case Nil
  then show ?case by simp
next
  case (Cons j js)
  let ?pt = "pt[j := squeeze (pt ! j)]"
  have step: "\<forall>i. ?pt ! i = pt ! i \<or> ?pt ! i = squeeze (pt ! i)"
    by (metis nth_list_update_eq nth_list_update_neq list_update_beyond not_le)
  show ?case
  proof (cases "muap_unit raw (?pt ! j) l")
    case (Inl e)
    with Cons.prems step show ?thesis by (auto simp: Let_def)
  next
    case (Inr r)
    with Cons.prems have "muap_units raw l js (?pt, AList.update (mu_key (int j)) r sd) = (res, pt')"
      by (simp add: Let_def)
    from Cons.IH [OF this] have len: "length pt' = length pt"
      and nth: "\<forall>i. pt' ! i = ?pt ! i \<or> pt' ! i = squeeze (?pt ! i)"
      by simp_all
    have "pt' ! i = pt ! i \<or> pt' ! i = squeeze (pt ! i)" for i
      using nth [rule_format, of i] step [rule_format, of i] by (auto simp: squeeze_idem)
    with len show ?thesis by simp
  qed
qed

lemma unit_result_update:
  "j < length pt \<Longrightarrow> unit_result raw l (pt[j := squeeze (pt ! j)]) = unit_result raw l pt"
  by (rule ext) (simp add: unit_result_def nth_list_update squeeze_idem)

lemma muap_units_Inr:
  "muap_units raw l js (pt, sd) = (Inr d, pt') \<Longrightarrow> \<forall>j\<in>set js. j < length pt \<Longrightarrow>
   (\<forall>j\<in>set js. \<exists>r. unit_result raw l pt j = Inr r) \<and>
   d = fold (\<lambda>j. AList.update (mu_key (int j)) (projr (unit_result raw l pt j))) js sd"
proof (induction js arbitrary: pt sd)
  case Nil
  then show ?case by simp
next
  case (Cons j js)
  let ?pt = "pt[j := squeeze (pt ! j)]"
  from Cons.prems have j: "j < length pt" by simp
  then have cur: "muap_unit raw (?pt ! j) l = unit_result raw l pt j"
    by (simp add: unit_result_def)
  show ?case
  proof (cases "unit_result raw l pt j")
    case (Inl e)
    with Cons.prems cur show ?thesis by (simp add: Let_def)
  next
    case (Inr r)
    with Cons.prems cur
    have "muap_units raw l js (?pt, AList.update (mu_key (int j)) r sd) = (Inr d, pt')"
      by (simp add: Let_def)
    from Cons.IH [OF this] Cons.prems(2) Inr show ?thesis
      by (simp add: unit_result_update [OF j])
  qed
qed

lemma muap_units_Inl:
  "muap_units raw l js (pt, sd) = (Inl e, pt') \<Longrightarrow> \<forall>j\<in>set js. j < length pt \<Longrightarrow>
   \<exists>j\<in>set js. unit_result raw l pt j = Inl e"
proof (induction js arbitrary: pt sd)
  case Nil
  then show ?case by simp
next
  case (Cons j js)
  let ?pt = "pt[j := squeeze (pt ! j)]"
  from Cons.prems have j: "j < length pt" by simp
  then have cur: "muap_unit raw (?pt ! j) l = unit_result raw l pt j"
    by (simp add: unit_result_def)
  show ?case
  proof (cases "unit_result raw l pt j")
    case (Inl e')
    with Cons.prems cur show ?thesis by (simp add: Let_def)
  next
    case (Inr r)
    with Cons.prems cur
    have "muap_units raw l js (?pt, AList.update (mu_key (int j)) r sd) = (Inl e, pt')"
      by (simp add: Let_def)
    from Cons.IH [OF this] Cons.prems(2) show ?thesis
      by (simp add: unit_result_update [OF j])
  qed
qed

lemma muap_units_again:
  "muap_units raw l js (pt, sd) = (res, pt') \<Longrightarrow> \<forall>j\<in>set js. j < length pt \<Longrightarrow>
   muap_units raw l js (pt', sd) = (res, pt')"
proof (induction js arbitrary: pt sd)
  case Nil
  then show ?case by simp
next
  case (Cons j js)
  let ?pt = "pt[j := squeeze (pt ! j)]"
  from Cons.prems have j: "j < length pt" by simp
  show ?case
  proof (cases "muap_unit raw (?pt ! j) l")
    case (Inl e)
    with Cons.prems have "res = Inl e" and "pt' = ?pt" by (simp_all add: Let_def)
    with Inl j show ?thesis by (simp add: Let_def squeeze_idem)
  next
    case (Inr r)
    let ?sd = "AList.update (mu_key (int j)) r sd"
    from Inr Cons.prems have run: "muap_units raw l js (?pt, ?sd) = (res, pt')"
      by (simp add: Let_def)
    from muap_units_pt [OF run] have len: "length pt' = length pt"
      and "pt' ! j = ?pt ! j \<or> pt' ! j = squeeze (?pt ! j)"
      by simp_all
    with j have "pt' ! j = squeeze (pt ! j)"
      by (auto simp: squeeze_idem)
    then have "squeeze (pt' ! j) = pt' ! j"
      by (simp add: squeeze_idem)
    then have same: "pt'[j := squeeze (pt' ! j)] = pt'"
      by (simp only: list_update_id)
    from Cons.IH [OF run] Cons.prems(2) have "muap_units raw l js (pt', ?sd) = (res, pt')"
      by simp
    with same Inr j \<open>pt' ! j = squeeze (pt ! j)\<close> show ?thesis
      by (simp add: Let_def)
  qed
qed

lemma distinct_mu_keys: "distinct (map (\<lambda>j. mu_key (int j)) [a..<b])"
  by (simp add: distinct_map inj_on_def) (auto dest: mu_key_inj)

lemma muap_dict_Inr:
  assumes run: "muap_dict F raw pt l = (Inr d, pt')" and wf: "list_all wf_ndarray pt"
  shows "d = map (\<lambda>i. (mu_key (int i), unit_record (F raw) (data (pt ! i)) l)) [0..<length pt]"
    and "\<forall>i<length pt. 0 \<le> l \<and> list_all (in_bounds (n_samples (F raw))) (windows l (data (pt ! i)))"
proof -
  let ?g = "\<lambda>j. projr (unit_result (F raw) l pt j)"
  from run have units: "muap_units (F raw) l [0..<length pt] (pt, []) = (Inr d, pt')"
    by (simp add: muap_dict_def)
  from muap_units_Inr [OF units]
  have ok: "\<forall>j<length pt. \<exists>r. unit_result (F raw) l pt j = Inr r"
    and d: "d = fold (\<lambda>j. AList.update (mu_key (int j)) (?g j)) [0..<length pt] []"
    by simp_all
  have each: "0 \<le> l \<and> list_all (in_bounds (n_samples (F raw))) (windows l (data (pt ! i)))
      \<and> ?g i = unit_record (F raw) (data (pt ! i)) l" if i: "i < length pt" for i
  proof -
    from ok i obtain r where r: "unit_result (F raw) l pt i = Inr r" by blast
    from wf i have "wf_ndarray (squeeze (pt ! i))"
      by (simp add: wf_squeeze list_all_length)
    from muap_unit_InrD [OF r [unfolded unit_result_def] this] r show ?thesis
      by (simp add: data_squeeze)
  qed
  from d have "d = map (\<lambda>j. (mu_key (int j), ?g j)) [0..<length pt]"
    using fold_update_fresh [of "\<lambda>j. mu_key (int j)" "[0..<length pt]" "[]" ?g]
    by (simp add: distinct_mu_keys)
  also have "\<dots> = map (\<lambda>i. (mu_key (int i), unit_record (F raw) (data (pt ! i)) l)) [0..<length pt]"
    using each by simp
  finally show "d = map (\<lambda>i. (mu_key (int i), unit_record (F raw) (data (pt ! i)) l)) [0..<length pt]" .
  from each show "\<forall>i<length pt. 0 \<le> l \<and> list_all (in_bounds (n_samples (F raw))) (windows l (data (pt ! i)))"
    by blast
qed

lemma map_of_mu_keys:
  "i < m \<Longrightarrow> map_of (map (\<lambda>i. (mu_key (int i), g i)) [0..<m]) (mu_key (int i)) = Some (g i)"
proof (induction m)
  case 0
  then show ?case by simp
next
  case (Suc m)
  show ?case
  proof (cases "i = m")
    case True
    have "mu_key (int m) \<notin> fst ` set (map (\<lambda>i. (mu_key (int i), g i)) [0..<m])"
      by (auto dest: mu_key_inj)
    then have "map_of (map (\<lambda>i. (mu_key (int i), g i)) [0..<m]) (mu_key (int m)) = None"
      by (rule map_of_eq_None_iff [THEN iffD2])
    with True show ?thesis by (simp add: map_add_def)
  next
    case False
    with Suc have "map_of (map (\<lambda>i. (mu_key (int i), g i)) [0..<m]) (mu_key (int i)) = Some (g i)"
      by simp
    then show ?thesis by (simp add: map_add_def mu_key_inj [of m i])
  qed
qed

lemma muap_dict_lookup:
  assumes "muap_dict F raw pt l = (Inr d, pt')" and "list_all wf_ndarray pt" and "i < length pt"
  shows "map_of d (mu_key (int i)) = Some (unit_record (F raw) (data (pt ! i)) l)"
  using muap_dict_Inr(1) [OF assms(1,2)] map_of_mu_keys [OF assms(3)] by simp

lemma muap_units_returns:
  assumes "\<forall>j\<in>set js. j < length pt" and "\<forall>j\<in>set js. \<exists>r. unit_result raw l pt j = Inr r"
  shows "\<exists>d pt'. muap_units raw l js (pt, sd) = (Inr d, pt')"
proof (cases "muap_units raw l js (pt, sd)")
  case (Pair res pt')
  show ?thesis
  proof (cases res)
    case (Inl e)
    with Pair muap_units_Inl [of raw l js pt sd e pt'] assms show ?thesis by fastforce
  next
    case (Inr d)
    with Pair show ?thesis by simp
  qed
qed

subsection \<open>A run of the extractor\<close>

lemma example_run:
  "muap_dict id example_raw example_pt 2 =
    (Inr [(''mu_0'', \<lparr>sample = [0, 1, 2, 3, 0, 1, 2, 3],
                       signal = [3 / 2, 3, 9 / 2, 6, 15 / 2, 9, 21 / 2, 12],
                       peak = [0, 0, 0, 0, 1, 1, 1, 1]\<rparr>),
          (''mu_1'', \<lparr>sample = [0, 1, 2, 3, 0, 1, 2, 3, 0, 1, 2, 3],
                       signal = [0, 3 / 2, 3, 9 / 2, 3, 9 / 2, 6, 15 / 2, 6, 15 / 2, 9, 21 / 2],
                       peak = [0, 0, 0, 0, 1, 1, 1, 1, 2, 2, 2, 2]\<rparr>)],
     [NDArray [2] [3, 7], NDArray [3] [2, 4, 6]])"
  by code_simp

lemma length_unit_record:
  assumes "0 \<le> l"
  shows "int (length (sample (unit_record raw ks l))) = int (length ks) * 2 * l"
    and "int (length (signal (unit_record raw ks l))) = int (length ks) * 2 * l"
    and "int (length (peak (unit_record raw ks l))) = int (length ks) * 2 * l"
proof -
  show "int (length (sample (unit_record raw ks l))) = int (length ks) * 2 * l"
    using assms
    by (simp add: unit_record_def np_tile_def length_concat length_np_arange sum_list_replicate)
  show "int (length (signal (unit_record raw ks l))) = int (length ks) * 2 * l"
    using length_windows [OF assms, of ks] by (simp add: unit_record_def)
  show "int (length (peak (unit_record raw ks l))) = int (length ks) * 2 * l"
    using assms
    by (simp add: unit_record_def np_full_def length_concat o_def sum_list_triv)
qed

subsection \<open>The record of a unit\<close>

lemma sample_unit_record:
  "sample (unit_record raw ks l) = concat (replicate (length ks) [0..2 * l - 1])"
  by (simp add: unit_record_def np_tile_def np_arange_def mult.commute)

lemma count_list_replicate_int:
  "count_list (replicate w a) x = (if x = a then w else 0)"
  by (induction w) (auto split: if_splits)

lemma peak_blocks_set:
  "set (concat (map (\<lambda>j. replicate w (int j)) [0..<n])) \<subseteq> int ` {..<n}"
  by auto

lemma peak_blocks_sorted: "sorted (concat (map (\<lambda>j. replicate w (int j)) [0..<n]))"
proof (induction n)
  case 0
  then show ?case by simp
next
  case (Suc n)
  have "x \<le> int n" if "x \<in> set (concat (map (\<lambda>j. replicate w (int j)) [0..<n]))" for x
    using that by auto
  with Suc show ?case
    by (simp add: sorted_append)
qed

lemma peak_blocks_count:
  "count_list (concat (map (\<lambda>j. replicate w (int j)) [0..<n])) (int j) = (if j < n then w else 0)"
  by (induction n) (auto simp: count_list_replicate_int)

lemma peak_unit_record:
  "peak (unit_record raw ks l) = concat (map (\<lambda>j. replicate (nat (2 * l)) (int j)) [0..<length ks])"
  by (simp add: unit_record_def np_full_def mult.commute)

lemma windows_nth:
  "j < length ks \<Longrightarrow> o' < nat (2 * l) \<Longrightarrow>
   windows l ks ! (j * nat (2 * l) + o') = ks ! j - l + int o'"
proof (induction ks arbitrary: j)
  case Nil
  then show ?case by simp
next
  case (Cons k ks)
  have len: "length (np_arange (k - l) (k + l)) = nat (2 * l)"
    by (simp add: length_np_arange)
  have split: "windows l (k # ks) = np_arange (k - l) (k + l) @ windows l ks"
    by (simp add: windows_def)
  show ?case
  proof (cases j)
    case 0
    with Cons.prems len show ?thesis
      by (simp add: split nth_append np_arange_def)
  next
    case (Suc j')
    with Cons.prems have "windows l ks ! (j' * nat (2 * l) + o') = ks ! j' - l + int o'"
      by (intro Cons.IH) simp_all
    with Suc len show ?thesis
      by (simp add: split nth_append add.assoc)
  qed
qed

lemma length_windows_nat: "length (windows l ks) = length ks * nat (2 * l)"
  by (induction ks) (simp_all add: windows_def length_np_arange)

lemma block_index_less:
  fixes j n w o' :: nat
  assumes "j < n" and "o' < w"
  shows "j * w + o' < n * w"
proof -
  from assms(2) have "j * w + o' < Suc j * w" by simp
  also from assms(1) have "Suc j * w \<le> n * w"
    by (intro mult_le_mono1) simp
  finally show ?thesis .
qed

lemma signal_unit_record:
  assumes "j < length ks" and "o' < nat (2 * l)"
  shows "signal (unit_record raw ks l) ! (j * nat (2 * l) + o') =
    mean (column raw (ks ! j - l + int o'))"
proof -
  from assms have "j * nat (2 * l) + o' < length (windows l ks)"
    by (simp add: length_windows_nat block_index_less)
  then show ?thesis
    using windows_nth [OF assms] by (simp add: unit_record_def)
qed

lemma set_windows: "set (windows l ks) = (\<Union>k\<in>set ks. {k - l..k + l - 1})"
  by (simp add: windows_def np_arange_def)

lemma unit_result_in_range:
  assumes wf: "wf_ndarray a" and one: "length (shape (squeeze a)) = 1" and l: "0 \<le> l"
    and rng: "\<forall>k\<in>set (data a). 0 \<le> k \<and> k + l \<le> int (n_samples raw)"
  shows "muap_unit raw (squeeze a) l = Inr (unit_record raw (data a) l)"
proof -
  from one obtain n where n: "shape (squeeze a) = [n]"
    by (cases "shape (squeeze a)") auto
  from wf have "wf_ndarray (squeeze a)" by (simp add: wf_squeeze)
  with n have len: "length (data (squeeze a)) = n" by (simp add: wf_ndarray_def)
  have "in_bounds (n_samples raw) p" if "p \<in> set (windows l (data a))" for p
  proof -
    from that obtain k where "k \<in> set (data a)" and "k - l \<le> p" and "p \<le> k + l - 1"
      by (auto simp: set_windows)
    with rng show ?thesis by (auto simp: in_bounds_def)
  qed
  then have "list_all (in_bounds (n_samples raw)) (windows l (data a))"
    by (simp add: list_all_iff)
  with muap_unit_1d [OF n len] l show ?thesis
    by (simp add: data_squeeze)
qed

subsection \<open>The renderer with \<open>l\<close> bound\<close>

lemma mu_key_0: "mu_key 0 = ''mu_0''"
  by code_simp

text \<open>
  Were \<open>l\<close> bound, the check of line 89 would answer a page size above twelve with
  the message, for every label of the table.
\<close>

lemma muap_plot_env_max_per_page:
  assumes "map_of shape_dict (mu_key mu_index) = Some r"
    and "length (sample r) = length (signal r)" and "length (signal r) = length (peak r)"
    and "12 < count"
  shows "muap_plot_env (Some l) shape_dict mu_index page count =
    Inr (Message ''Max plots per page is 12'')"
  using assms by (simp add: muap_plot_env_def bind_err_def DataFrame_def)

section \<open>The claims\<close>

text \<open>
  Claim C9. Calling the extractor twice in succession with the same arguments gives the
  same output. The first call leaves the caller's \<open>pt\<close> squeezed (line 33), so the
  second call runs on \<open>snd\<close> of the first call's result; \<open>flatten_signal\<close> is a
  function of its argument. The second call returns what the first returned, the
  exception included when the first call raised, and changes \<open>pt\<close> no further.
\<close>

theorem muap_dict_twice:
  "muap_dict flatten_signal raw (snd (muap_dict flatten_signal raw pt l)) l =
   muap_dict flatten_signal raw pt l"
proof (cases "muap_dict flatten_signal raw pt l")
  case (Pair res pt')
  then have run: "muap_units (flatten_signal raw) l [0..<length pt] (pt, []) = (res, pt')"
    by (simp add: muap_dict_def)
  from muap_units_pt [OF run] have len: "length pt' = length pt" by simp
  from muap_units_again [OF run]
  have "muap_units (flatten_signal raw) l [0..<length pt] (pt', []) = (res, pt')"
    by simp
  with len Pair show ?thesis
    by (simp add: muap_dict_def)
qed

text \<open>
  Claim C2. When the extractor returns a mapping for \<open>m\<close> motor units, the mapping has
  exactly one entry per unit, in the order of the units, entry \<open>i\<close> under the key
  \<open>mu_<i>\<close>, and for a unit with \<open>n\<close> firing events each of \<open>sample\<close>, \<open>signal\<close> and
  \<open>peak\<close> has length \<open>n * 2 * l\<close>.
\<close>

theorem muap_dict_entries:
  assumes "muap_dict flatten_signal raw pt l = (Inr shape_dict, pt')"
    and "list_all wf_ndarray pt"
  shows "length shape_dict = length pt
    \<and> map fst shape_dict = map (\<lambda>i. mu_key (int i)) [0..<length pt]
    \<and> distinct (map fst shape_dict)
    \<and> (\<forall>i<length pt.
          int (length (sample (snd (shape_dict ! i)))) = int (length (data (pt ! i))) * 2 * l
        \<and> int (length (signal (snd (shape_dict ! i)))) = int (length (data (pt ! i))) * 2 * l
        \<and> int (length (peak (snd (shape_dict ! i)))) = int (length (data (pt ! i))) * 2 * l)"
proof -
  note d = muap_dict_Inr(1) [OF assms]
  note l = muap_dict_Inr(2) [OF assms]
  have keys: "map fst shape_dict = map (\<lambda>i. mu_key (int i)) [0..<length pt]"
    by (simp add: d o_def)
  moreover have "length shape_dict = length pt"
    by (simp add: d)
  moreover have "distinct (map fst shape_dict)"
    by (simp only: keys distinct_mu_keys)
  moreover have "int (length (sample (snd (shape_dict ! i)))) = int (length (data (pt ! i))) * 2 * l
        \<and> int (length (signal (snd (shape_dict ! i)))) = int (length (data (pt ! i))) * 2 * l
        \<and> int (length (peak (snd (shape_dict ! i)))) = int (length (data (pt ! i))) * 2 * l"
    if "i < length pt" for i
  proof -
    from l that have "0 \<le> l" by blast
    from length_unit_record [OF this] that show ?thesis
      by (simp add: d)
  qed
  ultimately show ?thesis by blast
qed

theorem muap_dict_entries_witness:
  "list_all wf_ndarray example_pt
   \<and> \<not> isl (fst (muap_dict id example_raw example_pt 2))
   \<and> map fst (projr (fst (muap_dict id example_raw example_pt 2))) = [''mu_0'', ''mu_1'']
   \<and> length (signal (snd (projr (fst (muap_dict id example_raw example_pt 2)) ! 1))) = 12"
proof -
  have wf: "list_all wf_ndarray example_pt"
    by (simp add: example_pt_def wf_ndarray_def)
  obtain d pt' where run: "muap_dict id example_raw example_pt 2 = (Inr d, pt')"
    using example_run by blast
  have keys: "mu_key 0 = ''mu_0''" "mu_key 1 = ''mu_1''" by code_simp+
  from muap_dict_entries [OF run wf]
  have names: "map fst d = map (\<lambda>i. mu_key (int i)) [0..<length example_pt]"
    and lens: "\<forall>i<length example_pt.
          int (length (sample (snd (d ! i)))) = int (length (data (example_pt ! i))) * 2 * 2
        \<and> int (length (signal (snd (d ! i)))) = int (length (data (example_pt ! i))) * 2 * 2
        \<and> int (length (peak (snd (d ! i)))) = int (length (data (example_pt ! i))) * 2 * 2"
    by blast+
  from lens [rule_format, of 1] have "length (signal (snd (d ! 1))) = 12"
    by (simp add: example_pt_def)
  moreover from names keys have "map fst d = [''mu_0'', ''mu_1'']"
    by (simp add: example_pt_def upt_rec)
  ultimately show ?thesis
    using wf run by simp
qed

text \<open>
  Claim C3. For a motor unit with \<open>n\<close> firing events, the \<open>sample\<close> sequence of its
  record (the entry under its key in a returned mapping) is \<open>0, 1, ..., 2 * l - 1\<close>
  repeated \<open>n\<close> times.
\<close>

theorem muap_dict_sample:
  assumes "muap_dict flatten_signal raw pt l = (Inr shape_dict, pt')"
    and "list_all wf_ndarray pt"
    and "i < length pt"
    and "map_of shape_dict (mu_key (int i)) = Some r"
  shows "sample r = concat (replicate (length (data (pt ! i))) [0..2 * l - 1])"
  using muap_dict_lookup [OF assms(1-3)] assms(4) by (simp add: sample_unit_record)

theorem muap_dict_sample_witness:
  "list_all wf_ndarray example_pt \<and> 1 < length example_pt
   \<and> (\<exists>r. map_of (projr (fst (muap_dict id example_raw example_pt 2))) (mu_key (int 1)) = Some r
        \<and> sample r = [0, 1, 2, 3, 0, 1, 2, 3, 0, 1, 2, 3])"
proof -
  have wf: "list_all wf_ndarray example_pt"
    by (simp add: example_pt_def wf_ndarray_def)
  have i: "1 < length example_pt"
    by (simp add: example_pt_def)
  obtain d pt' where run: "muap_dict id example_raw example_pt 2 = (Inr d, pt')"
    using example_run by blast
  obtain r where r: "map_of d (mu_key (int 1)) = Some r"
    using muap_dict_lookup [OF run wf i] by blast
  from muap_dict_sample [OF run wf i r]
  have "sample r = [0, 1, 2, 3, 0, 1, 2, 3, 0, 1, 2, 3]"
    by (simp add: example_pt_def upto_rec1 numeral_3_eq_3)
  with wf i r run show ?thesis by simp
qed

text \<open>
  Claim C4. For a motor unit with \<open>n\<close> firing events, the \<open>peak\<close> sequence of its
  record is non-decreasing, each event index \<open>j < n\<close> occurs in it exactly \<open>2 * l\<close>
  times, and it is the event indices in order, each repeated \<open>2 * l\<close> times.
\<close>

theorem muap_dict_peak:
  assumes "muap_dict flatten_signal raw pt l = (Inr shape_dict, pt')"
    and "list_all wf_ndarray pt"
    and "i < length pt"
    and "map_of shape_dict (mu_key (int i)) = Some r"
  shows "sorted (peak r)
    \<and> (\<forall>j<length (data (pt ! i)). int (count_list (peak r) (int j)) = 2 * l)
    \<and> peak r = concat (map (\<lambda>j. replicate (nat (2 * l)) (int j)) [0..<length (data (pt ! i))])"
proof -
  from muap_dict_lookup [OF assms(1-3)] assms(4)
  have r: "r = unit_record (flatten_signal raw) (data (pt ! i)) l" by simp
  from muap_dict_Inr(2) [OF assms(1,2)] assms(3) have "0 \<le> l" by blast
  then show ?thesis
    by (simp add: r peak_unit_record peak_blocks_sorted peak_blocks_count)
qed

theorem muap_dict_peak_witness:
  "list_all wf_ndarray example_pt \<and> 1 < length example_pt
   \<and> (\<exists>r. map_of (projr (fst (muap_dict id example_raw example_pt 2))) (mu_key (int 1)) = Some r
        \<and> sorted (peak r) \<and> count_list (peak r) 2 = 4
        \<and> peak r = [0, 0, 0, 0, 1, 1, 1, 1, 2, 2, 2, 2])"
proof -
  have wf: "list_all wf_ndarray example_pt"
    by (simp add: example_pt_def wf_ndarray_def)
  have i: "1 < length example_pt"
    by (simp add: example_pt_def)
  obtain d pt' where run: "muap_dict id example_raw example_pt 2 = (Inr d, pt')"
    using example_run by blast
  obtain r where r: "map_of d (mu_key (int 1)) = Some r"
    using muap_dict_lookup [OF run wf i] by blast
  from muap_dict_peak [OF run wf i r]
  have srt: "sorted (peak r)"
    and cnt: "\<forall>j<length (data (example_pt ! 1)). int (count_list (peak r) (int j)) = 2 * 2"
    and pk: "peak r = concat (map (\<lambda>j. replicate (nat (2 * 2)) (int j)) [0..<length (data (example_pt ! 1))])"
    by blast+
  from cnt [rule_format, of 2] have "count_list (peak r) 2 = 4"
    by (simp add: example_pt_def)
  moreover from pk have "peak r = [0, 0, 0, 0, 1, 1, 1, 1, 2, 2, 2, 2]"
    by (simp add: example_pt_def upt_rec numeral_3_eq_3 numeral_eq_Suc)
  ultimately show ?thesis
    using wf i r run srt by simp
qed

text \<open>
  Claim C1. For a motor unit whose firing indices all lie in \<open>[l, T - l]\<close>, the
  \<open>signal\<close> value at position \<open>j * 2 * l + o\<close> of its record is the mean over the
  channels of the raw signal at sample \<open>firing_index[j] - l + o\<close>, for every event
  \<open>j\<close> and offset \<open>o < 2 * l\<close>. (Over a signal without channels both sides are the
  mean of an empty column, which numpy gives as NaN.)
\<close>

theorem muap_dict_signal:
  assumes "muap_dict flatten_signal raw pt l = (Inr shape_dict, pt')"
    and "list_all wf_ndarray pt"
    and "i < length pt"
    and "map_of shape_dict (mu_key (int i)) = Some r"
    and "\<forall>k\<in>set (data (pt ! i)). l \<le> k \<and> k \<le> int (n_samples (flatten_signal raw)) - l"
    and "j < length (data (pt ! i))"
    and "o' < nat (2 * l)"
  shows "signal r ! (j * nat (2 * l) + o') =
    mean (map (\<lambda>ch. ch ! nat (data (pt ! i) ! j - l + int o')) (channels (flatten_signal raw)))"
proof -
  from muap_dict_lookup [OF assms(1-3)] assms(4)
  have r: "r = unit_record (flatten_signal raw) (data (pt ! i)) l" by simp
  from assms(5,6) have "l \<le> data (pt ! i) ! j" by simp
  then have "0 \<le> data (pt ! i) ! j - l + int o'" by simp
  then show ?thesis
    by (simp add: r signal_unit_record [OF assms(6,7)] column_def axis_index_def)
qed

theorem muap_dict_signal_witness:
  "list_all wf_ndarray example_pt \<and> 1 < length example_pt
   \<and> list_all (\<lambda>k. 2 \<le> k \<and> k \<le> int (n_samples (id example_raw)) - 2) (data (example_pt ! 1))
   \<and> 1 < length (data (example_pt ! 1)) \<and> 2 < nat (2 * 2)
   \<and> (\<exists>r. map_of (projr (fst (muap_dict id example_raw example_pt 2))) (mu_key (int 1)) = Some r
        \<and> signal r ! 6 = 6)"
proof -
  have wf: "list_all wf_ndarray example_pt"
    by (simp add: example_pt_def wf_ndarray_def)
  have i: "1 < length example_pt"
    by (simp add: example_pt_def)
  have rng: "\<forall>k\<in>set (data (example_pt ! 1)). 2 \<le> k \<and> k \<le> int (n_samples (id example_raw)) - 2"
    by (simp add: example_pt_def example_raw_def)
  have j: "1 < length (data (example_pt ! 1))"
    by (simp add: example_pt_def)
  have o': "2 < nat (2 * 2)"
    by simp
  obtain d pt' where run: "muap_dict id example_raw example_pt 2 = (Inr d, pt')"
    using example_run by blast
  obtain r where r: "map_of d (mu_key (int 1)) = Some r"
    using muap_dict_lookup [OF run wf i] by blast
  from muap_dict_signal [OF run wf i r rng j o']
  have "signal r ! 6 = 6"
    by (simp add: example_pt_def example_raw_def mean_def)
  with wf i rng j o' r run show ?thesis by (simp add: list_all_iff)
qed

text \<open>
  Claim C5. The claim: whenever some firing index \<open>k\<close> violates \<open>k - l \<ge> 0\<close> or
  \<open>k + l \<le> T\<close>, the extractor fails with an index-out-of-range error instead of
  returning a record built from out-of-bounds reads. The module has no bounds check; the
  only check is numpy's own in \<open>raw[:, ptl]\<close>, which accepts the indices from \<open>-T\<close>
  to \<open>-1\<close>. So the firing index \<open>1\<close> with \<open>l = 2\<close> is not refused: the extractor
  returns a record whose first window starts with the mean of the last sample.
\<close>

theorem muap_dict_low_index_counterexample:
  "\<not> (0 \<le> (1::int) - 2)
   \<and> fst (muap_dict id example_raw [NDArray [2] [1, 7]] 2) =
       Inr [(''mu_0'', \<lparr>sample = [0, 1, 2, 3, 0, 1, 2, 3],
                          signal = [27 / 2, 0, 3 / 2, 3, 15 / 2, 9, 21 / 2, 12],
                          peak = [0, 0, 0, 0, 1, 1, 1, 1]\<rparr>)]"
  by code_simp

text \<open>
  Claim C5, amended. With \<open>l > 0\<close>, a firing index \<open>k\<close> with \<open>k + l > T\<close> or
  \<open>k - l < -T\<close> makes the extractor raise, and the exception is the index error of
  \<open>raw[:, ptl]\<close> when every unit's array squeezes to one dimension.
\<close>

theorem muap_dict_out_of_range:
  assumes wf: "list_all wf_ndarray pt"
    and l: "0 < l"
    and i: "i < length pt"
    and k: "k \<in> set (data (pt ! i))"
    and out: "int (n_samples (flatten_signal raw)) < k + l
              \<or> k - l < - int (n_samples (flatten_signal raw))"
  shows "\<exists>e. fst (muap_dict flatten_signal raw pt l) = Inl e
    \<and> ((\<forall>a\<in>set pt. length (shape (squeeze a)) = 1) \<longrightarrow> e = IndexError_axis)"
proof (cases "muap_dict flatten_signal raw pt l")
  case (Pair res pt')
  let ?T = "n_samples (flatten_signal raw)"
  show ?thesis
  proof (cases res)
    case (Inr d)
    with Pair have run: "muap_dict flatten_signal raw pt l = (Inr d, pt')" by simp
    from muap_dict_Inr(2) [OF run wf] i
    have "list_all (in_bounds ?T) (windows l (data (pt ! i)))" by blast
    moreover from l k have "k - l \<in> set (windows l (data (pt ! i)))"
      and "k + l - 1 \<in> set (windows l (data (pt ! i)))"
      by (auto simp: set_windows intro!: bexI [of _ k])
    ultimately have "in_bounds ?T (k - l)" and "in_bounds ?T (k + l - 1)"
      by (simp_all add: list_all_iff)
    with out show ?thesis
      by (simp add: in_bounds_def)
  next
    case (Inl e)
    with Pair have units: "muap_units (flatten_signal raw) l [0..<length pt] (pt, []) = (Inl e, pt')"
      by (simp add: muap_dict_def)
    have "e = IndexError_axis" if one: "\<forall>a\<in>set pt. length (shape (squeeze a)) = 1"
    proof -
      from muap_units_Inl [OF units] obtain j
        where j: "j < length pt" and e: "unit_result (flatten_signal raw) l pt j = Inl e"
        by auto
      from one j have "length (shape (squeeze (pt ! j))) = 1"
        by simp
      then obtain n where n: "shape (squeeze (pt ! j)) = [n]"
        by (cases "shape (squeeze (pt ! j))") auto
      from wf j have "wf_ndarray (squeeze (pt ! j))"
        by (simp add: wf_squeeze list_all_length)
      with n have "length (data (squeeze (pt ! j))) = n"
        by (simp add: wf_ndarray_def)
      from muap_unit_1d [OF n this] e l show ?thesis
        by (simp add: unit_result_def split: if_splits)
    qed
    with Pair Inl show ?thesis by simp
  qed
qed

theorem muap_dict_out_of_range_witness:
  "list_all wf_ndarray [NDArray [2] [3, 9]] \<and> (0::int) < 2 \<and> 0 < length [NDArray [2] [3, 9]]
   \<and> 9 \<in> set (data ([NDArray [2] [3, 9]] ! 0))
   \<and> int (n_samples (id example_raw)) < 9 + 2
   \<and> list_all (\<lambda>a. length (shape (squeeze a)) = 1) [NDArray [2] [3, 9]]
   \<and> fst (muap_dict id example_raw [NDArray [2] [3, 9]] 2) = Inl IndexError_axis"
proof -
  have wf: "list_all wf_ndarray [NDArray [2] [3, 9]]"
    by (simp add: wf_ndarray_def)
  have l: "(0::int) < 2" by simp
  have i: "0 < length [NDArray [2] [3, 9]]" by simp
  have k: "9 \<in> set (data ([NDArray [2] [3, 9]] ! 0))" by simp
  have out: "int (n_samples (id example_raw)) < 9 + 2
      \<or> 9 - 2 < - int (n_samples (id example_raw))"
    by (simp add: example_raw_def)
  have one: "\<forall>a\<in>set [NDArray [2] [3, 9]]. length (shape (squeeze a)) = 1"
    by (simp add: squeeze_def)
  from muap_dict_out_of_range [where flatten_signal = id and raw = example_raw, OF wf l i k out]
    one
  have "fst (muap_dict id example_raw [NDArray [2] [3, 9]] 2) = Inl IndexError_axis"
    by blast
  with wf i k out one show ?thesis
    by (simp add: example_raw_def list_all_iff)
qed

text \<open>
  Claim C10. The claim: for every motor unit containing a firing index \<open>k < l\<close> with
  \<open>k + l\<close> within bounds, the extractor does not raise, and the negative window
  positions are read from the end of the time axis. As stated it fails when the same
  unit has another firing index that is out of range: the unit \<open>[1, 9]\<close> contains
  \<open>1 < 2\<close> with \<open>1 + 2 \<le> 10\<close>, and the extractor raises on \<open>9\<close>.
\<close>

theorem muap_dict_wrap_counterexample:
  "(1::int) < 2 \<and> (1::int) + 2 \<le> int (n_samples example_raw)
   \<and> fst (muap_dict id example_raw [NDArray [2] [1, 9]] 2) = Inl IndexError_axis"
  by code_simp

text \<open>
  Claim C10, amended. When \<open>l \<ge> 0\<close>, every unit's array squeezes to one dimension and
  every firing index \<open>k\<close> of every unit has \<open>0 \<le> k\<close> and \<open>k + l \<le> T\<close>, the
  extractor returns a mapping, also when some \<open>k < l\<close>; and wherever a window position
  \<open>p = k - l + o\<close> is negative, the \<open>signal\<close> value there is the mean over the channels
  of sample \<open>T + p\<close>, which is one of the last \<open>l\<close> samples.
\<close>

theorem muap_dict_wraps:
  assumes wf: "list_all wf_ndarray pt"
    and one: "\<forall>a\<in>set pt. length (shape (squeeze a)) = 1"
    and l: "0 \<le> l"
    and rng: "\<forall>a\<in>set pt. \<forall>k\<in>set (data a).
                0 \<le> k \<and> k + l \<le> int (n_samples (flatten_signal raw))"
  shows "\<exists>shape_dict pt'. muap_dict flatten_signal raw pt l = (Inr shape_dict, pt')
    \<and> (\<forall>i<length pt. \<forall>j<length (data (pt ! i)). \<forall>o'<nat (2 * l).
          data (pt ! i) ! j - l + int o' < 0 \<longrightarrow>
            signal (snd (shape_dict ! i)) ! (j * nat (2 * l) + o') =
              mean (map (\<lambda>ch. ch ! nat (int (n_samples (flatten_signal raw))
                                            + (data (pt ! i) ! j - l + int o')))
                        (channels (flatten_signal raw)))
          \<and> int (n_samples (flatten_signal raw)) - l
              \<le> int (n_samples (flatten_signal raw)) + (data (pt ! i) ! j - l + int o')
          \<and> int (n_samples (flatten_signal raw)) + (data (pt ! i) ! j - l + int o')
              < int (n_samples (flatten_signal raw)))"
proof -
  let ?raw = "flatten_signal raw"
  have "\<exists>r. unit_result ?raw l pt j = Inr r" if "j < length pt" for j
  proof -
    from that have mem: "pt ! j \<in> set pt" by simp
    from that wf have "wf_ndarray (pt ! j)"
      by (simp add: list_all_length)
    moreover from one mem have "length (shape (squeeze (pt ! j))) = 1"
      by blast
    moreover from rng mem
    have "\<forall>k\<in>set (data (pt ! j)). 0 \<le> k \<and> k + l \<le> int (n_samples ?raw)"
      by blast
    ultimately have "wf_ndarray (pt ! j)" "length (shape (squeeze (pt ! j))) = 1"
      "\<forall>k\<in>set (data (pt ! j)). 0 \<le> k \<and> k + l \<le> int (n_samples ?raw)"
      by blast+
    from unit_result_in_range [OF this(1,2) l this(3)] show ?thesis
      by (simp add: unit_result_def)
  qed
  then obtain d pt' where units: "muap_units ?raw l [0..<length pt] (pt, []) = (Inr d, pt')"
    using muap_units_returns [of "[0..<length pt]" pt ?raw l "[]"] by auto
  then have run: "muap_dict flatten_signal raw pt l = (Inr d, pt')"
    by (simp add: muap_dict_def)
  note d = muap_dict_Inr(1) [OF run wf]
  have "signal (snd (d ! i)) ! (j * nat (2 * l) + o') =
          mean (map (\<lambda>ch. ch ! nat (int (n_samples ?raw) + (data (pt ! i) ! j - l + int o')))
                    (channels ?raw))
        \<and> int (n_samples ?raw) - l \<le> int (n_samples ?raw) + (data (pt ! i) ! j - l + int o')
        \<and> int (n_samples ?raw) + (data (pt ! i) ! j - l + int o') < int (n_samples ?raw)"
    if i: "i < length pt" and j: "j < length (data (pt ! i))" and o': "o' < nat (2 * l)"
      and neg: "data (pt ! i) ! j - l + int o' < 0" for i j o'
  proof -
    from i j have "pt ! i \<in> set pt" and "data (pt ! i) ! j \<in> set (data (pt ! i))"
      by simp_all
    with rng have nonneg: "0 \<le> data (pt ! i) ! j" by blast
    let ?p = "data (pt ! i) ! j - l + int o'"
    from i have "snd (d ! i) = unit_record ?raw (data (pt ! i)) l"
      by (simp add: d)
    then have "signal (snd (d ! i)) ! (j * nat (2 * l) + o') = mean (column ?raw ?p)"
      by (simp only: signal_unit_record [OF j o'])
    also from neg have "column ?raw ?p =
        map (\<lambda>ch. ch ! nat (int (n_samples ?raw) + ?p)) (channels ?raw)"
      by (simp add: column_def axis_index_def add.commute)
    finally show ?thesis
      using nonneg neg by simp
  qed
  with run show ?thesis by blast
qed

theorem muap_dict_wraps_witness:
  "list_all wf_ndarray [NDArray [2] [1, 7]]
   \<and> list_all (\<lambda>a. length (shape (squeeze a)) = 1) [NDArray [2] [1, 7]]
   \<and> list_all (\<lambda>a. list_all (\<lambda>k. 0 \<le> k \<and> k + 2 \<le> int (n_samples (id example_raw))) (data a))
        [NDArray [2] [1, 7]]
   \<and> \<not> isl (fst (muap_dict id example_raw [NDArray [2] [1, 7]] 2))
   \<and> signal (snd (projr (fst (muap_dict id example_raw [NDArray [2] [1, 7]] 2)) ! 0)) ! 0
       = mean [9, 18]"
proof -
  let ?pt = "[NDArray [2] [1, 7]]"
  have wf: "list_all wf_ndarray ?pt"
    by (simp add: wf_ndarray_def)
  have one: "\<forall>a\<in>set ?pt. length (shape (squeeze a)) = 1"
    by (simp add: squeeze_def)
  have l: "(0::int) \<le> 2" by simp
  have rng: "\<forall>a\<in>set ?pt. \<forall>k\<in>set (data a). 0 \<le> k \<and> k + 2 \<le> int (n_samples (id example_raw))"
    by (simp add: example_raw_def)
  from muap_dict_wraps [where flatten_signal = id and raw = example_raw, OF wf one l rng]
  obtain d pt' where run: "muap_dict id example_raw ?pt 2 = (Inr d, pt')"
    and sig: "\<forall>i<length ?pt. \<forall>j<length (data (?pt ! i)). \<forall>o'<nat (2 * 2).
          data (?pt ! i) ! j - 2 + int o' < 0 \<longrightarrow>
            signal (snd (d ! i)) ! (j * nat (2 * 2) + o') =
              mean (map (\<lambda>ch. ch ! nat (int (n_samples (id example_raw))
                                            + (data (?pt ! i) ! j - 2 + int o')))
                        (channels (id example_raw)))
          \<and> int (n_samples (id example_raw)) - 2
              \<le> int (n_samples (id example_raw)) + (data (?pt ! i) ! j - 2 + int o')
          \<and> int (n_samples (id example_raw)) + (data (?pt ! i) ! j - 2 + int o')
              < int (n_samples (id example_raw))"
    by blast
  from sig [rule_format, of 0 0 0] have "signal (snd (d ! 0)) ! 0 = mean [9, 18]"
    by (simp add: example_raw_def)
  with wf one rng run show ?thesis
    by (simp add: list_all_iff)
qed

text \<open>
  Claim C7. The claim: a call with more than twelve plots per page returns the message
  \<open>Max plots per page is 12\<close>. Line 89 makes that check, but line 87 reads the unbound
  name \<open>l\<close> first: the call with \<open>count = 13\<close> raises \<open>NameError\<close>.
\<close>

theorem muap_plot_max_per_page_failing:
  "muap_plot example_table 0 1 13 = Inl NameError"
  by (simp add: muap_plot_def viz_global_l_def muap_plot_env_def bind_err_def example_table_def
      mu_key_0 DataFrame_def)

text \<open>
  Claim C6. The claim: a page beyond the last page is answered with a message naming the
  last page, computed from the number of events of the table. The table has two events,
  so with two plots per page the last page is page 1, and page 2 should be answered with
  that message. The call raises \<open>NameError\<close> on \<open>l\<close>; and were \<open>l\<close> bound to the
  half-width \<open>1\<close> of the table, line 93 would add one page because \<open>147 % 2 > 0\<close>,
  take page 2 for the last page and return a chart without rows.
\<close>

theorem muap_plot_last_page_failing:
  "muap_plot example_table 0 2 2 = Inl NameError
   \<and> muap_plot_env (Some 1) example_table 0 2 2 =
       Inr (Plot \<lparr>chart_data = [], facet_title = ''Page 2 of 2'', facet_columns = 1\<rparr>)"
  by code_simp

text \<open>
  Claim C8. The claim: every invocation of \<open>muap_plot\<close> fails with the undefined-name
  error. Line 85 looks the unit's label up before line 87 reads \<open>l\<close>: a call with a
  label that the table does not have fails with \<open>KeyError\<close>.
\<close>

theorem muap_plot_missing_label_counterexample:
  "muap_plot [] 0 1 12 = Inl KeyError \<and> muap_plot [] 0 1 12 \<noteq> Inl NameError"
  by (simp add: muap_plot_def muap_plot_env_def bind_err_def)

text \<open>
  Claim C8, amended. Every invocation of \<open>muap_plot\<close> raises and so returns neither a
  chart nor a message: the undefined-name error when the label is in the table with
  three sequences of equal length, \<open>KeyError\<close> when the label is not in the table.
\<close>

theorem muap_plot_raises:
  "(\<exists>e. muap_plot shape_dict mu_index page count = Inl e)
   \<and> (\<forall>r. map_of shape_dict (mu_key mu_index) = Some r
          \<and> length (sample r) = length (signal r) \<and> length (signal r) = length (peak r)
        \<longrightarrow> muap_plot shape_dict mu_index page count = Inl NameError)
   \<and> (map_of shape_dict (mu_key mu_index) = None
        \<longrightarrow> muap_plot shape_dict mu_index page count = Inl KeyError)"
  by (auto simp: muap_plot_def viz_global_l_def muap_plot_env_def bind_err_def DataFrame_def
      split: option.splits)

theorem muap_plot_raises_witness:
  "map_of example_table (mu_key 0) =
     Some \<lparr>sample = [0, 1, 0, 1], signal = [1, 2, 3, 4], peak = [0, 0, 1, 1]\<rparr>
   \<and> muap_plot example_table 0 1 12 = Inl NameError
   \<and> map_of [] (mu_key 0) = (None :: shape_record option)
   \<and> muap_plot [] 0 1 12 = Inl KeyError"
proof -
  have key: "map_of example_table (mu_key 0) =
     Some \<lparr>sample = [0, 1, 0, 1], signal = [1, 2, 3, 4], peak = [0, 0, 1, 1]\<rparr>"
    by (simp add: example_table_def mu_key_0)
  from muap_plot_raises [of example_table 0 1 12] key
  have "muap_plot example_table 0 1 12 = Inl NameError"
    by simp
  moreover from muap_plot_raises [of "[]" 0 1 12]
  have "muap_plot [] 0 1 12 = Inl KeyError"
    by simp
  ultimately show ?thesis
    using key by simp
qed

end
